theory Spec2Isabelle
  imports Main "HOL-Library.Sublist"
begin

section \<open>Strings\<close>




definition is_space :: "char \<Rightarrow> bool" where
  "is_space c = ((of_char c :: nat) \<in> {9, 10, 11, 12, 13, 32, 160})"

definition trim :: "string \<Rightarrow> string" where
  "trim s = rev (dropWhile is_space (rev (dropWhile is_space s)))"

subsection \<open>Letter case and white space, as tables\<close>





definition white_space_chars :: string where
  "white_space_chars = [CHR 0x09, CHR 0x0A, CHR 0x0B, CHR 0x0C, CHR 0x0D, CHR 0x20, CHR 0xA0]"

definition white_space_only :: "string \<Rightarrow> bool" where
  "white_space_only s = (\<forall>c \<in> set s. c \<in> set white_space_chars)"

text \<open>
  \<open>t\<close> is \<open>s\<close> trimmed: \<open>s\<close> is \<open>t\<close> between two runs of white space, and \<open>t\<close>
  neither starts nor ends with a white-space character.
\<close>

definition trimmed_form :: "string \<Rightarrow> string \<Rightarrow> bool" where
  "trimmed_form s t =
     (\<exists>l r. s = l @ t @ r \<and> white_space_only l \<and> white_space_only r
        \<and> \<not> (\<exists>c t'. t = c # t' \<and> c \<in> set white_space_chars)
        \<and> \<not> (\<exists>t' c. t = t' @ [c] \<and> c \<in> set white_space_chars))"

section \<open>Data model\<close>

record User =
  id_user :: string
  email_user :: string

record Profile =
  id_profile :: string
  user_id_profile :: string
  first_name :: string
  last_name :: string
  is_pro :: bool
  created_at_profile :: string

datatype CaseStatus = active | pending | closed

text \<open>
  The interface declares \<open>description: string\<close>, but the creation flow stores \<open>null\<close>
  for an empty description and the readers use \<open>?.\<close> and \<open>||\<close> on it, so the field
  is optional here.
\<close>

record Case =
  id_case :: string
  user_id_case :: string
  title :: string
  description :: "string option"
  status :: CaseStatus
  file_count :: int
  created_at_case :: string
  updated_at :: string

text \<open>The object passed to \<open>insert\<close> by the creation flow.\<close>

record CaseInsert =
  ins_user_id :: string
  ins_title :: string
  ins_description :: "string option"
  ins_status :: CaseStatus
  ins_file_count :: int

record PostgrestError =
  code :: string
  message :: string

text \<open>
  What a handler does to the outside world, in program order: requests to the row
  store and the session provider, the timer, notifications, the console and navigation.
\<close>

datatype effect =
    Select_profile string
  | Select_cases string
  | Insert_case CaseInsert
  | Update_profile_is_pro string bool
  | SetTimeout nat
  | Console_error string
  | Toast_error string
  | Toast_success string
  | Navigate string
  | SignUp string string string string
  | SignIn string string

section \<open>Dashboard\<close>

record Dashboard =
  user_D :: "User option"
  authLoading_D :: bool
  profile_D :: "Profile option"
  cases :: "Case list"
  filteredCases :: "Case list"
  searchQuery :: string
  showCreateModal :: bool
  newCaseTitle :: string
  newCaseDescription :: string
  loading_D :: bool
  creating :: bool

text \<open>The state of a freshly mounted dashboard, for a given session.\<close>

definition Dashboard_init :: "User option \<Rightarrow> bool \<Rightarrow> Dashboard" where
  "Dashboard_init u al =
     \<lparr>user_D = u, authLoading_D = al, profile_D = None, cases = [], filteredCases = [],
      searchQuery = [], showCreateModal = False, newCaseTitle = [],
      newCaseDescription = [], loading_D = True, creating = False\<rparr>"

subsection \<open>Client-side filter\<close>






subsection \<open>Loaders\<close>

text \<open>
  An asynchronous handler is split at its \<open>await\<close>: the part that runs at once
  (\<open>_begin\<close>: the guard, the flag, the request) and the part that runs when the answer
  arrives (\<open>_resume\<close>, given the answer). A \<open>.single()\<close> request answers with either an
  error or one row; a request for all rows answers with an error or the rows (possibly
  \<open>null\<close>).
\<close>

definition Dashboard_fetchProfile_begin :: "Dashboard \<Rightarrow> Dashboard \<times> effect list" where
  "Dashboard_fetchProfile_begin s =
     (case user_D s of
        None \<Rightarrow> (s, [])
      | Some u \<Rightarrow> (s, [Select_profile (id_user u)]))"

definition Dashboard_fetchProfile_resume ::
    "PostgrestError + Profile \<Rightarrow> Dashboard \<Rightarrow> Dashboard \<times> effect list" where
  "Dashboard_fetchProfile_resume r s =
     (case r of
        Inl e \<Rightarrow>
          if code e \<noteq> ''PGRST116''
          then (s, [Console_error ''Error fetching profile:'', Toast_error ''Failed to load profile''])
          else (s, [])
      | Inr d \<Rightarrow> (s\<lparr>profile_D := Some d\<rparr>, []))"

definition fetchCases_begin :: "Dashboard \<Rightarrow> Dashboard \<times> effect list" where
  "fetchCases_begin s =
     (case user_D s of
        None \<Rightarrow> (s, [])
      | Some u \<Rightarrow> (s, [Select_cases (id_user u)]))"

definition fetchCases_resume ::
    "PostgrestError + Case list option \<Rightarrow> Dashboard \<Rightarrow> Dashboard \<times> effect list" where
  "fetchCases_resume r s =
     (case r of
        Inl e \<Rightarrow>
          (s\<lparr>loading_D := False\<rparr>,
           [Console_error ''Error fetching cases:'', Toast_error ''Failed to load cases''])
      | Inr d \<Rightarrow>
          (s\<lparr>cases := (case d of None \<Rightarrow> [] | Some rows \<Rightarrow> rows), loading_D := False\<rparr>, []))"

subsection \<open>Case creation\<close>

definition handleCreateCase_begin :: "Dashboard \<Rightarrow> Dashboard \<times> effect list" where
  "handleCreateCase_begin s =
     (case user_D s of
        None \<Rightarrow> (s, [])
      | Some u \<Rightarrow>
          if trim (newCaseTitle s) = [] then (s, [])
          else
            (s\<lparr>creating := True\<rparr>,
             [Insert_case
                \<lparr>ins_user_id = id_user u,
                 ins_title = trim (newCaseTitle s),
                 ins_description =
                   (if trim (newCaseDescription s) \<noteq> [] then Some (trim (newCaseDescription s))
                    else None),
                 ins_status = active,
                 ins_file_count = 0\<rparr>]))"

definition handleCreateCase_resume ::
    "PostgrestError + Case \<Rightarrow> Dashboard \<Rightarrow> Dashboard \<times> effect list" where
  "handleCreateCase_resume r s =
     (case r of
        Inl e \<Rightarrow>
          (s\<lparr>creating := False\<rparr>,
           [Console_error ''Error creating case:'', Toast_error ''Failed to create case''])
      | Inr d \<Rightarrow>
          (s\<lparr>cases := d # cases s, newCaseTitle := [], newCaseDescription := [],
             showCreateModal := False, creating := False\<rparr>,
           [Toast_success ''Case created successfully!'']))"

text \<open>
  The row store's \<open>insert(...).select().single()\<close> answers with the stored row: the
  submitted columns, with an id and timestamps assigned by the server.
\<close>

definition stored_row_of :: "CaseInsert \<Rightarrow> Case \<Rightarrow> bool" where
  "stored_row_of p d =
     (user_id_case d = ins_user_id p \<and> title d = ins_title p \<and>
      description d = ins_description p \<and> status d = ins_status p \<and>
      file_count d = ins_file_count p)"

subsection \<open>What the dashboard renders\<close>

datatype DashboardView = Dashboard_spinner | Dashboard_null | Dashboard_main

definition Dashboard_render :: "Dashboard \<Rightarrow> DashboardView" where
  "Dashboard_render s =
     (if authLoading_D s \<or> loading_D s then Dashboard_spinner
      else if user_D s = None \<or> profile_D s = None then Dashboard_null
      else Dashboard_main)"

text \<open>
  The "Create Case" button of the dialog: it is on the screen when the main view is
  rendered and the dialog is open, and it is disabled while the trimmed title is empty
  or a creation is in progress. A click on a button that is absent or disabled runs no
  handler.
\<close>

definition create_button_disabled :: "Dashboard \<Rightarrow> bool" where
  "create_button_disabled s = (trim (newCaseTitle s) = [] \<or> creating s)"

definition click_create_case :: "Dashboard \<Rightarrow> Dashboard \<times> effect list" where
  "click_create_case s =
     (if Dashboard_render s = Dashboard_main \<and> showCreateModal s \<and> \<not> create_button_disabled s
      then handleCreateCase_begin s
      else (s, []))"

section \<open>Payment\<close>

record Payment =
  user_P :: "User option"
  authLoading_P :: bool
  profile_P :: "Profile option"
  paymentStep :: nat
  loading_P :: bool
  processing :: bool

definition Payment_init :: "User option \<Rightarrow> bool \<Rightarrow> Payment" where
  "Payment_init u al =
     \<lparr>user_P = u, authLoading_P = al, profile_P = None, paymentStep = 1,
      loading_P = True, processing = False\<rparr>"

definition Payment_fetchProfile_begin :: "Payment \<Rightarrow> Payment \<times> effect list" where
  "Payment_fetchProfile_begin s =
     (case user_P s of
        None \<Rightarrow> (s, [])
      | Some u \<Rightarrow> (s, [Select_profile (id_user u)]))"

definition Payment_fetchProfile_resume ::
    "PostgrestError + Profile \<Rightarrow> Payment \<Rightarrow> Payment \<times> effect list" where
  "Payment_fetchProfile_resume r s =
     (case r of
        Inl e \<Rightarrow>
          if code e \<noteq> ''PGRST116''
          then (s\<lparr>loading_P := False\<rparr>,
                [Console_error ''Error fetching profile:'', Toast_error ''Failed to load profile''])
          else (s\<lparr>loading_P := False\<rparr>, [])
      | Inr d \<Rightarrow> (s\<lparr>profile_P := Some d, loading_P := False\<rparr>, []))"

text \<open>
  \<open>handlePayment\<close> waits for the timer and then for the update; nothing of the component
  is read or written between the two, so both requests are listed by the first part, in
  their order. The update answers with an error or with none.
\<close>

definition handlePayment_begin :: "Payment \<Rightarrow> Payment \<times> effect list" where
  "handlePayment_begin s =
     (case user_P s of
        None \<Rightarrow> (s, [])
      | Some u \<Rightarrow>
          if profile_P s = None then (s, [])
          else (s\<lparr>processing := True\<rparr>,
                [SetTimeout 2000, Update_profile_is_pro (id_user u) True]))"

definition handlePayment_resume ::
    "PostgrestError option \<Rightarrow> Payment \<Rightarrow> Payment \<times> effect list" where
  "handlePayment_resume r s =
     (case r of
        Some e \<Rightarrow>
          (s\<lparr>processing := False\<rparr>,
           [Console_error ''Error processing payment:'',
            Toast_error ''Payment failed. Please try again.''])
      | None \<Rightarrow>
          (s\<lparr>profile_P := (case profile_P s of None \<Rightarrow> None | Some prev \<Rightarrow> Some (prev\<lparr>is_pro := True\<rparr>)),
             paymentStep := 3, processing := False\<rparr>,
           [Toast_success ''Payment successful! Welcome to Pro!'']))"

datatype PaymentView =
    Payment_spinner | Payment_null | Already_pro | Offer | Mock_payment | Success | Header_only

definition Payment_render :: "Payment \<Rightarrow> PaymentView" where
  "Payment_render s =
     (if authLoading_P s \<or> loading_P s then Payment_spinner
      else if user_P s = None then Payment_null
      else case profile_P s of
        None \<Rightarrow> Payment_null
      | Some p \<Rightarrow>
          if is_pro p then Already_pro
          else if paymentStep s = 1 then Offer
          else if paymentStep s = 2 then Mock_payment
          else if paymentStep s = 3 then Success
          else Header_only)"

text \<open>
  What can happen to a mounted payment screen: a click on one of its buttons (which runs
  a handler only when the button is on the screen and enabled), the answer to the profile
  request, and the answer to the update of an upgrade in progress.
\<close>

datatype PaymentEvent =
    Click_upgrade_now
  | Click_complete_payment
  | Click_back
  | Click_dashboard
  | Profile_answer "PostgrestError + Profile"
  | Payment_answer "PostgrestError option"

definition Payment_step :: "PaymentEvent \<Rightarrow> Payment \<Rightarrow> Payment \<times> effect list" where
  "Payment_step e s =
     (case e of
        Click_upgrade_now \<Rightarrow>
          if Payment_render s = Offer then (s\<lparr>paymentStep := 2\<rparr>, []) else (s, [])
      | Click_complete_payment \<Rightarrow>
          if Payment_render s = Mock_payment \<and> \<not> processing s then handlePayment_begin s
          else (s, [])
      | Click_back \<Rightarrow>
          if Payment_render s = Mock_payment \<and> \<not> processing s then (s\<lparr>paymentStep := 1\<rparr>, [])
          else (s, [])
      | Click_dashboard \<Rightarrow>
          if Payment_render s \<in> {Already_pro, Offer, Mock_payment, Success, Header_only}
          then (s, [Navigate ''/dashboard'']) else (s, [])
      | Profile_answer r \<Rightarrow> Payment_fetchProfile_resume r s
      | Payment_answer r \<Rightarrow> if processing s then handlePayment_resume r s else (s, []))"

fun Payment_run :: "PaymentEvent list \<Rightarrow> Payment \<Rightarrow> Payment" where
  "Payment_run [] s = s"
| "Payment_run (e # es) s = Payment_run es (fst (Payment_step e s))"

subsection \<open>Predicates on the payment screen and its events\<close>

definition is_profile_answer :: "PaymentEvent \<Rightarrow> bool" where
  "is_profile_answer e = (case e of Profile_answer r \<Rightarrow> True | _ \<Rightarrow> False)"

text \<open>An upgrade is only in progress on a screen that holds a profile.\<close>

definition in_flight_has_profile :: "Payment \<Rightarrow> bool" where
  "in_flight_has_profile s = (processing s \<longrightarrow> profile_P s \<noteq> None)"

text \<open>
  A screen on which no upgrade is in progress and whose profile, if it holds one, is Pro;
  and an event that, if it is the answer to the profile request with a row, carries a
  Pro profile.
\<close>

definition only_pro :: "Payment \<Rightarrow> bool" where
  "only_pro s = (\<not> processing s \<and> (\<forall>p. profile_P s = Some p \<longrightarrow> is_pro p))"

definition answers_pro :: "PaymentEvent \<Rightarrow> bool" where
  "answers_pro e = (case e of Profile_answer (Inr q) \<Rightarrow> is_pro q | _ \<Rightarrow> True)"

section \<open>Regular expressions\<close>

text \<open>
  The part of the regular-expression language that the email pattern uses. \<open>test\<close> on a
  pattern anchored with \<open>^\<close> and \<open>$\<close> asks whether the whole string matches; it is decided
  with derivatives.
\<close>

datatype regex = Fail | Eps | Atom "char \<Rightarrow> bool" | Alt regex regex | Seq regex regex | Star regex

definition Plus :: "regex \<Rightarrow> regex" where
  "Plus r = Seq r (Star r)"

fun nullable :: "regex \<Rightarrow> bool" where
  "nullable Fail = False"
| "nullable Eps = True"
| "nullable (Atom P) = False"
| "nullable (Alt r s) = (nullable r \<or> nullable s)"
| "nullable (Seq r s) = (nullable r \<and> nullable s)"
| "nullable (Star r) = True"

fun deriv :: "char \<Rightarrow> regex \<Rightarrow> regex" where
  "deriv c Fail = Fail"
| "deriv c Eps = Fail"
| "deriv c (Atom P) = (if P c then Eps else Fail)"
| "deriv c (Alt r s) = Alt (deriv c r) (deriv c s)"
| "deriv c (Seq r s) =
     (if nullable r then Alt (Seq (deriv c r) s) (deriv c s) else Seq (deriv c r) s)"
| "deriv c (Star r) = Seq (deriv c r) (Star r)"

fun matches :: "regex \<Rightarrow> string \<Rightarrow> bool" where
  "matches r [] = nullable r"
| "matches r (c # w) = matches (deriv c r) w"

text \<open>The class \<open>[^\s@]\<close>.\<close>

definition not_space_or_at :: "char \<Rightarrow> bool" where
  "not_space_or_at c = (\<not> is_space c \<and> c \<noteq> CHR ''@'')"

text \<open>\<open>/^[^\s@]+@[^\s@]+\.[^\s@]+$/\<close>\<close>

definition emailRegex :: regex where
  "emailRegex =
     Seq (Plus (Atom not_space_or_at))
       (Seq (Atom (\<lambda>c. c = CHR ''@''))
          (Seq (Plus (Atom not_space_or_at))
             (Seq (Atom (\<lambda>c. c = CHR ''.''))
                (Plus (Atom not_space_or_at)))))"

definition emailRegex_test :: "string \<Rightarrow> bool" where
  "emailRegex_test e = matches emailRegex e"

section \<open>Registration\<close>

record Register =
  firstName :: string
  lastName :: string
  email_R :: string
  password_R :: string
  confirmPassword :: string
  loading_R :: bool
  error_R :: string

definition validateForm :: "Register \<Rightarrow> string option" where
  "validateForm s =
     (if firstName s = [] \<or> lastName s = [] \<or> email_R s = [] \<or> password_R s = []
         \<or> confirmPassword s = []
      then Some ''Please fill in all fields''
      else if length (password_R s) < 6
      then Some ''Password must be at least 6 characters long''
      else if password_R s \<noteq> confirmPassword s
      then Some ''Passwords do not match''
      else if \<not> emailRegex_test (email_R s)
      then Some ''Please enter a valid email address''
      else None)"

text \<open>The answer of the session provider to \<open>signUp\<close> or \<open>signIn\<close>; the call may also throw.\<close>

datatype AuthResult = Auth_ok | Auth_error string | Auth_throws

definition Register_handleSubmit_begin :: "Register \<Rightarrow> Register \<times> effect list" where
  "Register_handleSubmit_begin s =
     (let s1 = s\<lparr>loading_R := True, error_R := []\<rparr> in
      case validateForm s of
        Some validationError \<Rightarrow> (s1\<lparr>error_R := validationError, loading_R := False\<rparr>, [])
      | None \<Rightarrow> (s1, [SignUp (email_R s) (password_R s) (firstName s) (lastName s)]))"

definition Register_handleSubmit_resume ::
    "AuthResult \<Rightarrow> Register \<Rightarrow> Register \<times> effect list" where
  "Register_handleSubmit_resume r s =
     (case r of
        Auth_error m \<Rightarrow>
          (s\<lparr>error_R := m, loading_R := False\<rparr>, [Toast_error (''Registration failed: '' @ m)])
      | Auth_ok \<Rightarrow>
          (s\<lparr>loading_R := False\<rparr>,
           [Toast_success ''Registration successful! Please check your email for verification.'',
            Navigate ''/dashboard''])
      | Auth_throws \<Rightarrow>
          (s\<lparr>error_R := ''An unexpected error occurred'', loading_R := False\<rparr>,
           [Toast_error ''Registration failed'']))"

section \<open>Login\<close>

record Login =
  email_L :: string
  password_L :: string
  loading_L :: bool
  error_L :: string

definition Login_handleSubmit_begin :: "Login \<Rightarrow> Login \<times> effect list" where
  "Login_handleSubmit_begin s =
     (let s1 = s\<lparr>loading_L := True, error_L := []\<rparr> in
      if email_L s = [] \<or> password_L s = []
      then (s1\<lparr>error_L := ''Please fill in all fields'', loading_L := False\<rparr>, [])
      else (s1, [SignIn (email_L s) (password_L s)]))"

definition Login_handleSubmit_resume :: "AuthResult \<Rightarrow> Login \<Rightarrow> Login \<times> effect list" where
  "Login_handleSubmit_resume r s =
     (case r of
        Auth_error m \<Rightarrow>
          (s\<lparr>error_L := m, loading_L := False\<rparr>, [Toast_error (''Login failed: '' @ m)])
      | Auth_ok \<Rightarrow>
          (s\<lparr>loading_L := False\<rparr>, [Toast_success ''Login successful!'', Navigate ''/dashboard''])
      | Auth_throws \<Rightarrow>
          (s\<lparr>error_L := ''An unexpected error occurred'', loading_L := False\<rparr>,
           [Toast_error ''Login failed'']))"

section \<open>The validation rules as the specification lists them\<close>

inductive_set kleene :: "string set \<Rightarrow> string set" for A :: "string set" where
  kleene_empty: "[] \<in> kleene A"
| kleene_more: "u \<in> A \<Longrightarrow> v \<in> kleene A \<Longrightarrow> u @ v \<in> kleene A"

fun lang :: "regex \<Rightarrow> string set" where
  "lang Fail = {}"
| "lang Eps = {[]}"
| "lang (Atom P) = {w. \<exists>c. w = [c] \<and> P c}"
| "lang (Alt r s) = lang r \<union> lang s"
| "lang (Seq r s) = {w. \<exists>u v. w = u @ v \<and> u \<in> lang r \<and> v \<in> lang s}"
| "lang (Star r) = kleene (lang r)"

definition local_at_domain_tld :: "string \<Rightarrow> bool" where
  "local_at_domain_tld e =
     (\<exists>l d t. e = l @ ''@'' @ d @ ''.'' @ t \<and> l \<noteq> [] \<and> d \<noteq> [] \<and> t \<noteq> []
        \<and> (\<forall>c \<in> set (l @ d @ t). c \<notin> set white_space_chars \<and> c \<noteq> CHR ''@''))"

fun first_failing :: "(('a \<Rightarrow> bool) \<times> string) list \<Rightarrow> 'a \<Rightarrow> string option" where
  "first_failing [] s = None"
| "first_failing ((ok, m) # rules) s = (if ok s then first_failing rules s else Some m)"

definition register_rules :: "((Register \<Rightarrow> bool) \<times> string) list" where
  "register_rules =
     [(\<lambda>s. firstName s \<noteq> [] \<and> lastName s \<noteq> [] \<and> email_R s \<noteq> [] \<and> password_R s \<noteq> []
            \<and> confirmPassword s \<noteq> [],
       ''Please fill in all fields''),
      (\<lambda>s. 6 \<le> length (password_R s), ''Password must be at least 6 characters long''),
      (\<lambda>s. password_R s = confirmPassword s, ''Passwords do not match''),
      (\<lambda>s. local_at_domain_tld (email_R s), ''Please enter a valid email address'')]"

section \<open>Example data\<close>

definition case_smith :: Case where
  "case_smith =
     \<lparr>id_case = ''c1'', user_id_case = ''u1'', title = ''Smith v. Jones'',
      description = None, status = active, file_count = 0,
      created_at_case = ''2024-01-02'', updated_at = ''2024-01-02''\<rparr>"

definition case_estate :: Case where
  "case_estate =
     \<lparr>id_case = ''c2'', user_id_case = ''u1'', title = ''Estate of Brown'',
      description = Some ''Probate; see JONES file'', status = pending, file_count = 2,
      created_at_case = ''2024-01-01'', updated_at = ''2024-01-03''\<rparr>"

definition user_u1 :: User where
  "user_u1 = \<lparr>id_user = ''u1'', email_user = ''a@b.co''\<rparr>"

definition profile_u1 :: Profile where
  "profile_u1 =
     \<lparr>id_profile = ''p1'', user_id_profile = ''u1'', first_name = ''Ada'',
      last_name = ''Smith'', is_pro = False, created_at_profile = ''2024-01-01''\<rparr>"

definition not_found :: PostgrestError where
  "not_found = \<lparr>code = ''PGRST116'', message = ''no rows''\<rparr>"

definition server_down :: PostgrestError where
  "server_down = \<lparr>code = ''500'', message = ''internal error''\<rparr>"

definition dash_typing :: Dashboard where
  "dash_typing =
     \<lparr>user_D = Some user_u1, authLoading_D = False, profile_D = Some profile_u1,
      cases = [case_estate], filteredCases = [case_estate], searchQuery = [],
      showCreateModal = True, newCaseTitle = ''  Smith v. Jones '',
      newCaseDescription = '' '', loading_D = False, creating = False\<rparr>"

definition dash_blank_title :: Dashboard where
  "dash_blank_title = dash_typing\<lparr>newCaseTitle := [CHR '' '', CHR 0x09, CHR 0xA0, CHR 0x0A]\<rparr>"

definition dash_typing_nbsp :: Dashboard where
  "dash_typing_nbsp =
     dash_typing\<lparr>newCaseTitle := [CHR 0xA0] @ '' Smith v. Jones '' @ [CHR 0xA0, CHR 0x09]\<rparr>"


definition nbsp_email :: string where
  "nbsp_email = ''a'' @ [CHR 0xA0] @ ''b@c.de''"

definition pay_step2 :: Payment where
  "pay_step2 =
     \<lparr>user_P = Some user_u1, authLoading_P = False, profile_P = Some profile_u1,
      paymentStep = 2, loading_P = False, processing = False\<rparr>"

definition pay_no_profile :: Payment where
  "pay_no_profile = pay_step2\<lparr>profile_P := None\<rparr>"

definition pay_already_pro :: Payment where
  "pay_already_pro =
     \<lparr>user_P = Some user_u1, authLoading_P = False,
      profile_P = Some (profile_u1\<lparr>is_pro := True\<rparr>),
      paymentStep = 1, loading_P = False, processing = False\<rparr>"

definition upgrade_events :: "PaymentEvent list" where
  "upgrade_events =
     [Profile_answer (Inr profile_u1), Click_upgrade_now, Click_complete_payment,
      Payment_answer None, Click_dashboard]"

definition dash_no_profile_loaded :: Dashboard where
  "dash_no_profile_loaded =
     fst (fetchCases_resume (Inr (Some []))
       (fst (Dashboard_fetchProfile_resume (Inl not_found) (Dashboard_init (Some user_u1) False))))"

definition dash_creating :: Dashboard where
  "dash_creating = dash_typing\<lparr>creating := True\<rparr>"

definition pay_processing :: Payment where
  "pay_processing = pay_step2\<lparr>processing := True\<rparr>"

definition reg_form :: "string \<Rightarrow> string \<Rightarrow> string \<Rightarrow> Register" where
  "reg_form e p c =
     \<lparr>firstName = ''Ada'', lastName = ''Smith'', email_R = e, password_R = p,
      confirmPassword = c, loading_R = False, error_R = []\<rparr>"

definition login_form :: "string \<Rightarrow> string \<Rightarrow> Login" where
  "login_form e p = \<lparr>email_L = e, password_L = p, loading_L = False, error_L = []\<rparr>"

definition pro_entry_events :: "PaymentEvent list" where
  "pro_entry_events =
     [Click_upgrade_now, Profile_answer (Inr (profile_u1\<lparr>is_pro := True\<rparr>)), Click_upgrade_now,
      Click_complete_payment, Payment_answer None, Click_back]"

section \<open>Letter case and white space\<close>














lemma is_space_table: "\<forall>c. is_space c = (c \<in> set white_space_chars)"
  by code_simp

lemma is_space_iff: "is_space c \<longleftrightarrow> c \<in> set white_space_chars"
  using is_space_table by simp

lemma white_space_only_iff: "white_space_only s \<longleftrightarrow> (\<forall>c \<in> set s. is_space c)"
  by (simp add: white_space_only_def is_space_iff)

lemma trim_empty_iff: "trim s = [] \<longleftrightarrow> white_space_only s"
proof -
  have "trim s = [] \<longleftrightarrow> (\<forall>c \<in> set (dropWhile is_space s). is_space c)"
    by (simp add: trim_def dropWhile_eq_Nil_conv)
  also have "\<dots> \<longleftrightarrow> dropWhile is_space s = []"
  proof (cases "dropWhile is_space s")
    case Nil
    show ?thesis unfolding Nil by simp
  next
    case (Cons a as)
    then have "\<not> is_space a"
      using hd_dropWhile [of is_space s] by simp
    with Cons show ?thesis by auto
  qed
  also have "\<dots> \<longleftrightarrow> white_space_only s"
    by (simp add: dropWhile_eq_Nil_conv white_space_only_iff)
  finally show ?thesis .
qed

lemma trim_trimmed_form: "trimmed_form s (trim s)"
proof -
  let ?m = "dropWhile is_space s"
  let ?l = "takeWhile is_space s"
  let ?r = "rev (takeWhile is_space (rev ?m))"
  have m: "?m = trim s @ ?r"
  proof -
    have "rev (takeWhile is_space (rev ?m) @ dropWhile is_space (rev ?m)) = rev (rev ?m)"
      by (simp only: takeWhile_dropWhile_id)
    then have "rev (dropWhile is_space (rev ?m)) @ rev (takeWhile is_space (rev ?m)) = ?m"
      by (simp only: rev_append rev_rev_ident)
    then show ?thesis
      by (simp only: trim_def)
  qed
  have "s = ?l @ ?m" by simp
  with m have s: "s = ?l @ trim s @ ?r" by simp
  have l: "white_space_only ?l"
    by (auto simp: white_space_only_iff dest: set_takeWhileD)
  have r: "white_space_only ?r"
    by (auto simp: white_space_only_iff dest: set_takeWhileD)
  have e: "\<not> is_space (hd (trim s)) \<and> \<not> is_space (last (trim s))" if t: "trim s \<noteq> []"
  proof -
    from t have n: "dropWhile is_space (rev ?m) \<noteq> []"
      by (simp add: trim_def)
    then have "\<not> is_space (hd (dropWhile is_space (rev ?m)))"
      by (rule hd_dropWhile)
    then have la: "\<not> is_space (last (trim s))"
      using n by (simp add: trim_def last_rev)
    from t m have "?m \<noteq> []" by (metis append_is_Nil_conv)
    then have "\<not> is_space (hd ?m)" by (rule hd_dropWhile)
    moreover from t m have "hd ?m = hd (trim s)"
      by (metis hd_append2)
    ultimately show ?thesis
      using la by simp
  qed
  have h: "\<not> (\<exists>c t'. trim s = c # t' \<and> c \<in> set white_space_chars)"
  proof
    assume "\<exists>c t'. trim s = c # t' \<and> c \<in> set white_space_chars"
    then obtain c t' where c: "trim s = c # t'" "c \<in> set white_space_chars" by blast
    then have "trim s \<noteq> []" by simp
    from e [OF this] c show False by (simp add: is_space_iff)
  qed
  have k: "\<not> (\<exists>t' c. trim s = t' @ [c] \<and> c \<in> set white_space_chars)"
  proof
    assume "\<exists>t' c. trim s = t' @ [c] \<and> c \<in> set white_space_chars"
    then obtain t' c where c: "trim s = t' @ [c]" "c \<in> set white_space_chars" by blast
    then have "trim s \<noteq> []" by simp
    from e [OF this] c show False by (simp add: is_space_iff)
  qed
  from s l r h k show ?thesis
    unfolding trimmed_form_def by blast
qed

section \<open>The client-side filter\<close>








section \<open>Case creation\<close>

text \<open>
  C2. When a user is signed in and the title is not made of white space only, the
  creation flow submits a row whose title is the trimmed title (not empty, the title
  without the white space around it), with status active and file count 0; when the row
  store answers with the stored row, that row is put in front of the local case list,
  both input fields are cleared and the dialog is closed.
\<close>

theorem handleCreateCase_success:
  assumes "user_D s = Some u" and "\<not> white_space_only (newCaseTitle s)"
  shows "\<exists>p. handleCreateCase_begin s = (s\<lparr>creating := True\<rparr>, [Insert_case p])
           \<and> ins_user_id p = id_user u
           \<and> ins_title p = trim (newCaseTitle s)
           \<and> ins_title p \<noteq> [] \<and> trimmed_form (newCaseTitle s) (ins_title p)
           \<and> ins_status p = active \<and> ins_file_count p = 0
           \<and> (\<forall>d s'. stored_row_of p d \<longrightarrow>
                 (\<exists>s2. handleCreateCase_resume (Inr d) s' =
                          (s2, [Toast_success ''Case created successfully!''])
                    \<and> cases s2 = d # cases s'
                    \<and> title d = trim (newCaseTitle s) \<and> status d = active \<and> file_count d = 0
                    \<and> newCaseTitle s2 = [] \<and> newCaseDescription s2 = []
                    \<and> \<not> showCreateModal s2 \<and> \<not> creating s2))"
proof -
  from assms(2) have t: "trim (newCaseTitle s) \<noteq> []"
    by (simp add: trim_empty_iff)
  have f: "trimmed_form (newCaseTitle s) (trim (newCaseTitle s))"
    by (rule trim_trimmed_form)
  from assms(1) t f show ?thesis
    by (simp add: handleCreateCase_begin_def handleCreateCase_resume_def stored_row_of_def)
qed

theorem handleCreateCase_success_witness:
  "user_D dash_typing_nbsp = Some user_u1
   \<and> \<not> white_space_only (newCaseTitle dash_typing_nbsp)
   \<and> trim (newCaseTitle dash_typing_nbsp) = ''Smith v. Jones''
   \<and> trimmed_form (newCaseTitle dash_typing_nbsp) ''Smith v. Jones''
   \<and> stored_row_of
        \<lparr>ins_user_id = ''u1'', ins_title = ''Smith v. Jones'', ins_description = None,
         ins_status = active, ins_file_count = 0\<rparr> case_smith
   \<and> handleCreateCase_begin dash_typing_nbsp =
       (dash_typing_nbsp\<lparr>creating := True\<rparr>,
        [Insert_case \<lparr>ins_user_id = ''u1'', ins_title = ''Smith v. Jones'', ins_description = None,
         ins_status = active, ins_file_count = 0\<rparr>])
   \<and> cases (fst (handleCreateCase_resume (Inr case_smith) (dash_typing_nbsp\<lparr>creating := True\<rparr>)))
       = [case_smith, case_estate]"
proof -
  have u: "user_D dash_typing_nbsp = Some user_u1"
    by (simp add: dash_typing_nbsp_def dash_typing_def)
  have w: "\<not> white_space_only (newCaseTitle dash_typing_nbsp)"
    by code_simp
  have t: "trim (newCaseTitle dash_typing_nbsp) = ''Smith v. Jones''"
    by code_simp
  have d: "trim (newCaseDescription dash_typing_nbsp) = []"
    by code_simp
  have r: "stored_row_of
        \<lparr>ins_user_id = ''u1'', ins_title = ''Smith v. Jones'', ins_description = None,
         ins_status = active, ins_file_count = 0\<rparr> case_smith"
    by (simp add: stored_row_of_def case_smith_def)
  have c: "cases dash_typing_nbsp = [case_estate]"
    by (simp add: dash_typing_nbsp_def dash_typing_def)
  from handleCreateCase_success [OF u w] obtain p where
    b: "handleCreateCase_begin dash_typing_nbsp =
          (dash_typing_nbsp\<lparr>creating := True\<rparr>, [Insert_case p])"
    and pt: "ins_title p = trim (newCaseTitle dash_typing_nbsp)"
    and pf: "trimmed_form (newCaseTitle dash_typing_nbsp) (ins_title p)"
    and k: "\<forall>d s'. stored_row_of p d \<longrightarrow>
                 (\<exists>s2. handleCreateCase_resume (Inr d) s' =
                          (s2, [Toast_success ''Case created successfully!''])
                    \<and> cases s2 = d # cases s'
                    \<and> title d = trim (newCaseTitle dash_typing_nbsp) \<and> status d = active
                    \<and> file_count d = 0
                    \<and> newCaseTitle s2 = [] \<and> newCaseDescription s2 = []
                    \<and> \<not> showCreateModal s2 \<and> \<not> creating s2)"
    by blast
  have pd: "p = \<lparr>ins_user_id = ''u1'', ins_title = ''Smith v. Jones'', ins_description = None,
         ins_status = active, ins_file_count = 0\<rparr>"
    using b u t d by (simp add: handleCreateCase_begin_def user_u1_def)
  from pf pt t have tf: "trimmed_form (newCaseTitle dash_typing_nbsp) ''Smith v. Jones''"
    by simp
  from k r pd obtain s2 where
    "handleCreateCase_resume (Inr case_smith) (dash_typing_nbsp\<lparr>creating := True\<rparr>) =
        (s2, [Toast_success ''Case created successfully!''])"
    and "cases s2 = case_smith # cases (dash_typing_nbsp\<lparr>creating := True\<rparr>)"
    by blast
  then show ?thesis
    using u w t tf r b pd c by simp
qed

text \<open>
  C4. With a title that is empty or made of white space only, the trimmed title is
  empty, the creation flow issues no request and changes nothing (so the case list is
  as before and the dialog stays as it is), and so does a click on the submit button;
  when the row store answers with an error, the dialog, the two input fields and the
  case list are as before, and the failure is logged and notified.
\<close>

theorem handleCreateCase_rejected_or_failed:
  "(white_space_only (newCaseTitle s) \<longrightarrow>
      trim (newCaseTitle s) = []
      \<and> handleCreateCase_begin s = (s, []) \<and> click_create_case s = (s, []))
   \<and> (\<exists>s2 fx. handleCreateCase_resume (Inl e) s' = (s2, fx)
         \<and> showCreateModal s2 = showCreateModal s'
         \<and> newCaseTitle s2 = newCaseTitle s'
         \<and> newCaseDescription s2 = newCaseDescription s'
         \<and> cases s2 = cases s'
         \<and> fx = [Console_error ''Error creating case:'', Toast_error ''Failed to create case''])"
  by (simp add: trim_empty_iff [symmetric] handleCreateCase_begin_def handleCreateCase_resume_def
      click_create_case_def create_button_disabled_def split: option.splits)

theorem handleCreateCase_rejected_or_failed_witness:
  "white_space_only (newCaseTitle dash_blank_title)
   \<and> newCaseTitle dash_blank_title = [CHR '' '', CHR 0x09, CHR 0xA0, CHR 0x0A]
   \<and> handleCreateCase_begin dash_blank_title = (dash_blank_title, [])
   \<and> click_create_case dash_blank_title = (dash_blank_title, [])
   \<and> showCreateModal dash_blank_title"
proof -
  have t: "white_space_only (newCaseTitle dash_blank_title)"
    by code_simp
  have m: "showCreateModal dash_blank_title
      \<and> newCaseTitle dash_blank_title = [CHR '' '', CHR 0x09, CHR 0xA0, CHR 0x0A]"
    by (simp add: dash_blank_title_def dash_typing_def)
  show ?thesis
    using handleCreateCase_rejected_or_failed [of dash_blank_title server_down dash_blank_title] t m
    by simp
qed

section \<open>Profile loader\<close>

text \<open>
  C7. On the dashboard and on the payment screen alike, the profile loader takes the
  error code for "no matching row" as an empty answer: nothing is logged or notified
  and the local profile is left as it was (unset, on a fresh screen). Every other error
  is logged and notified, and the local profile is left as it was too.
\<close>

theorem fetchProfile_not_found_is_no_error:
  "(code e = ''PGRST116'' \<longrightarrow>
      Dashboard_fetchProfile_resume (Inl e) s = (s, [])
      \<and> Payment_fetchProfile_resume (Inl e) p = (p\<lparr>loading_P := False\<rparr>, []))
   \<and> (code e \<noteq> ''PGRST116'' \<longrightarrow>
      Dashboard_fetchProfile_resume (Inl e) s =
        (s, [Console_error ''Error fetching profile:'', Toast_error ''Failed to load profile''])
      \<and> Payment_fetchProfile_resume (Inl e) p =
        (p\<lparr>loading_P := False\<rparr>,
         [Console_error ''Error fetching profile:'', Toast_error ''Failed to load profile'']))
   \<and> profile_D (fst (Dashboard_fetchProfile_resume (Inl e) s)) = profile_D s
   \<and> profile_P (fst (Payment_fetchProfile_resume (Inl e) p)) = profile_P p"
  by (simp add: Dashboard_fetchProfile_resume_def Payment_fetchProfile_resume_def)

theorem fetchProfile_not_found_is_no_error_witness:
  "code not_found = ''PGRST116'' \<and> code server_down \<noteq> ''PGRST116''
   \<and> Dashboard_fetchProfile_resume (Inl not_found) (Dashboard_init (Some user_u1) False) =
       (Dashboard_init (Some user_u1) False, [])
   \<and> profile_D (Dashboard_init (Some user_u1) False) = None
   \<and> snd (Payment_fetchProfile_resume (Inl server_down) (Payment_init (Some user_u1) False)) =
       [Console_error ''Error fetching profile:'', Toast_error ''Failed to load profile'']
   \<and> profile_P (fst (Payment_fetchProfile_resume (Inl server_down) (Payment_init (Some user_u1) False)))
       = None"
proof -
  have a: "code not_found = ''PGRST116''"
    by (simp add: not_found_def)
  have b: "code server_down \<noteq> ''PGRST116''"
    by (simp add: server_down_def)
  have c: "profile_D (Dashboard_init (Some user_u1) False) = None"
    by (simp add: Dashboard_init_def)
  have d: "profile_P (Payment_init (Some user_u1) False) = None"
    by (simp add: Payment_init_def)
  show ?thesis
    using a b c d
      fetchProfile_not_found_is_no_error
        [of not_found "Dashboard_init (Some user_u1) False" "Payment_init (Some user_u1) False"]
      fetchProfile_not_found_is_no_error
        [of server_down "Dashboard_init (Some user_u1) False" "Payment_init (Some user_u1) False"]
    by simp
qed

section \<open>Payment\<close>

text \<open>
  C8. When the update of a payment succeeds, the local profile is the previous one with
  the Pro flag set: id, user id, first name, last name and creation time are unchanged.
\<close>

theorem handlePayment_patches_profile:
  assumes "profile_P s = Some p"
  shows "profile_P (fst (handlePayment_resume None s)) = Some (p\<lparr>is_pro := True\<rparr>)
         \<and> (\<exists>p'. profile_P (fst (handlePayment_resume None s)) = Some p'
               \<and> is_pro p'
               \<and> id_profile p' = id_profile p
               \<and> user_id_profile p' = user_id_profile p
               \<and> first_name p' = first_name p
               \<and> last_name p' = last_name p
               \<and> created_at_profile p' = created_at_profile p)"
  using assms by (simp add: handlePayment_resume_def)

theorem handlePayment_patches_profile_witness:
  "profile_P pay_step2 = Some profile_u1
   \<and> profile_P (fst (handlePayment_resume None pay_step2)) =
       Some \<lparr>id_profile = ''p1'', user_id_profile = ''u1'', first_name = ''Ada'',
             last_name = ''Smith'', is_pro = True, created_at_profile = ''2024-01-01''\<rparr>"
proof -
  have a: "profile_P pay_step2 = Some profile_u1"
    by (simp add: pay_step2_def)
  show ?thesis
    using a handlePayment_patches_profile [OF a]
    by (simp add: profile_u1_def)
qed

text \<open>
  C10. Invoked while the current user or the local profile is unset, the payment action
  returns at once: no timer, no update request, no notification, and the state of the
  screen (its step included) is unchanged.
\<close>

theorem handlePayment_unset_does_nothing:
  "user_P s = None \<or> profile_P s = None \<Longrightarrow> handlePayment_begin s = (s, [])"
  by (auto simp: handlePayment_begin_def split: option.splits)

theorem handlePayment_unset_does_nothing_witness:
  "profile_P pay_no_profile = None \<and> handlePayment_begin pay_no_profile = (pay_no_profile, [])
   \<and> paymentStep pay_no_profile = 2"
proof -
  have a: "profile_P pay_no_profile = None"
    by (simp add: pay_no_profile_def)
  then have "user_P pay_no_profile = None \<or> profile_P pay_no_profile = None"
    by simp
  from handlePayment_unset_does_nothing [OF this] a show ?thesis
    by (simp add: pay_no_profile_def pay_step2_def)
qed

section \<open>Upgrade flow\<close>

lemma Payment_step_in_flight:
  "in_flight_has_profile s \<Longrightarrow> in_flight_has_profile (fst (Payment_step e s))"
  by (cases e)
     (auto simp: in_flight_has_profile_def Payment_step_def handlePayment_begin_def
        handlePayment_resume_def Payment_fetchProfile_resume_def
        split: option.splits sum.splits if_splits)

lemma Payment_run_in_flight:
  "in_flight_has_profile s \<Longrightarrow> in_flight_has_profile (Payment_run es s)"
  by (induction es arbitrary: s) (simp_all add: Payment_step_in_flight)

lemma Payment_init_in_flight: "in_flight_has_profile (Payment_init u al)"
  by (simp add: in_flight_has_profile_def Payment_init_def)

lemma Payment_run_append: "Payment_run (es1 @ es2) s = Payment_run es2 (Payment_run es1 s)"
  by (induction es1 arbitrary: s) simp_all

lemma Payment_step_reaches_3:
  assumes "in_flight_has_profile s" and "paymentStep s \<noteq> 3"
    and "paymentStep (fst (Payment_step e s)) = 3"
  shows "\<exists>p. profile_P (fst (Payment_step e s)) = Some p \<and> is_pro p"
  using assms
  by (cases e)
     (auto simp: in_flight_has_profile_def Payment_step_def handlePayment_begin_def
        handlePayment_resume_def Payment_fetchProfile_resume_def
        split: option.splits sum.splits if_splits)

lemma Payment_run_reaches_3:
  assumes "paymentStep (Payment_run es (Payment_init u al)) = 3"
  shows "\<exists>es1 e es2. es = es1 @ e # es2
           \<and> paymentStep (Payment_run es1 (Payment_init u al)) \<noteq> 3
           \<and> paymentStep (Payment_run (es1 @ [e]) (Payment_init u al)) = 3
           \<and> (\<exists>p. profile_P (Payment_run (es1 @ [e]) (Payment_init u al)) = Some p \<and> is_pro p)"
  using assms
proof (induction es rule: rev_induct)
  case Nil
  then show ?case by (simp add: Payment_init_def)
next
  case (snoc x xs)
  let ?s = "Payment_run xs (Payment_init u al)"
  show ?case
  proof (cases "paymentStep ?s = 3")
    case True
    from snoc.IH [OF True] obtain es1 e es2 where
      "xs = es1 @ e # es2"
      and r: "paymentStep (Payment_run es1 (Payment_init u al)) \<noteq> 3
         \<and> paymentStep (Payment_run (es1 @ [e]) (Payment_init u al)) = 3
         \<and> (\<exists>p. profile_P (Payment_run (es1 @ [e]) (Payment_init u al)) = Some p \<and> is_pro p)"
      by blast
    then have "xs @ [x] = es1 @ e # (es2 @ [x])" by simp
    with r show ?thesis by blast
  next
    case False
    have i: "in_flight_has_profile ?s"
      by (rule Payment_run_in_flight [OF Payment_init_in_flight])
    have e: "Payment_run (xs @ [x]) (Payment_init u al) = fst (Payment_step x ?s)"
      by (simp add: Payment_run_append)
    with snoc.prems have "paymentStep (fst (Payment_step x ?s)) = 3" by simp
    from Payment_step_reaches_3 [OF i False this] e
    have "\<exists>p. profile_P (Payment_run (xs @ [x]) (Payment_init u al)) = Some p \<and> is_pro p"
      by simp
    moreover have "xs @ [x] = xs @ x # []" by simp
    ultimately show ?thesis
      using False snoc.prems by blast
  qed
qed

lemma Payment_step_already_pro:
  assumes "Payment_render s = Already_pro" and "\<not> processing s" and "\<not> is_profile_answer e"
  shows "fst (Payment_step e s) = s"
  using assms
  by (cases e) (auto simp: Payment_step_def is_profile_answer_def)

lemma Payment_run_already_pro:
  assumes "Payment_render s = Already_pro" and "\<not> processing s"
    and "\<forall>e \<in> set es. \<not> is_profile_answer e"
  shows "Payment_run es s = s"
  using assms
  by (induction es) (simp_all add: Payment_step_already_pro)

lemma Payment_render_already_pro:
  assumes "\<not> authLoading_P s" and "\<not> loading_P s" and "user_P s \<noteq> None"
    and "profile_P s = Some p" and "is_pro p"
  shows "Payment_render s = Already_pro"
  using assms by (simp add: Payment_render_def)

lemma Payment_render_only_pro:
  "only_pro s \<Longrightarrow> Payment_render s \<in> {Payment_spinner, Payment_null, Already_pro}"
  by (auto simp: only_pro_def Payment_render_def split: option.splits)

lemma Payment_step_only_pro:
  assumes "only_pro s" and "answers_pro e"
  shows "only_pro (fst (Payment_step e s))"
proof (cases e)
  case Click_complete_payment
  from assms(1) have "Payment_render s \<noteq> Mock_payment"
    using Payment_render_only_pro by fastforce
  with Click_complete_payment assms(1) show ?thesis
    by (simp add: Payment_step_def)
next
  case (Profile_answer r)
  with assms show ?thesis
    by (cases r) (auto simp: Payment_step_def only_pro_def answers_pro_def
        Payment_fetchProfile_resume_def)
next
  case (Payment_answer r)
  with assms(1) show ?thesis
    by (simp add: Payment_step_def only_pro_def)
qed (use assms(1) in \<open>auto simp: Payment_step_def only_pro_def\<close>)

lemma Payment_run_only_pro:
  assumes "only_pro s" and "\<forall>e \<in> set es. answers_pro e"
  shows "only_pro (Payment_run es s)"
  using assms
  by (induction es arbitrary: s) (simp_all add: Payment_step_only_pro)

lemma Payment_init_only_pro: "only_pro (Payment_init u al)"
  by (simp add: only_pro_def Payment_init_def)

text \<open>
  C3. Along every sequence of events of a freshly mounted payment screen, if the step
  is 3 at the end, then there is an event that moved the step to 3, and right after it
  the local profile has the Pro flag set. On a screen that holds a Pro profile with
  nothing in progress, the "already Pro" view is rendered, no click and no payment
  answer changes the state, and none of the three step views is rendered. And on a
  freshly mounted screen whose profile request is answered with a Pro profile (or with
  an error), no sequence of events leads to one of the three step views.
\<close>

theorem upgrade_flow_state_3_and_already_pro:
  "(paymentStep (Payment_run es (Payment_init u al)) = 3 \<longrightarrow>
      (\<exists>es1 e es2. es = es1 @ e # es2
           \<and> paymentStep (Payment_run es1 (Payment_init u al)) \<noteq> 3
           \<and> paymentStep (Payment_run (es1 @ [e]) (Payment_init u al)) = 3
           \<and> (\<exists>p. profile_P (Payment_run (es1 @ [e]) (Payment_init u al)) = Some p \<and> is_pro p)))
   \<and> (\<not> authLoading_P s \<and> \<not> loading_P s \<and> user_P s \<noteq> None \<and> profile_P s = Some q \<and> is_pro q
        \<and> \<not> processing s \<and> (\<forall>e \<in> set es'. \<not> is_profile_answer e) \<longrightarrow>
      Payment_render s = Already_pro
      \<and> Payment_run es' s = s
      \<and> Payment_render (Payment_run es' s) \<notin> {Offer, Mock_payment, Success})
   \<and> ((\<forall>e \<in> set es''. answers_pro e) \<longrightarrow>
      Payment_render (Payment_run es'' (Payment_init u al)) \<notin> {Offer, Mock_payment, Success})"
proof (intro conjI impI)
  assume "paymentStep (Payment_run es (Payment_init u al)) = 3"
  then show "\<exists>es1 e es2. es = es1 @ e # es2
           \<and> paymentStep (Payment_run es1 (Payment_init u al)) \<noteq> 3
           \<and> paymentStep (Payment_run (es1 @ [e]) (Payment_init u al)) = 3
           \<and> (\<exists>p. profile_P (Payment_run (es1 @ [e]) (Payment_init u al)) = Some p \<and> is_pro p)"
    by (rule Payment_run_reaches_3)
next
  assume a: "\<not> authLoading_P s \<and> \<not> loading_P s \<and> user_P s \<noteq> None \<and> profile_P s = Some q
    \<and> is_pro q \<and> \<not> processing s \<and> (\<forall>e \<in> set es'. \<not> is_profile_answer e)"
  then have r: "Payment_render s = Already_pro"
    by (simp add: Payment_render_already_pro)
  with a have k: "Payment_run es' s = s"
    by (simp add: Payment_run_already_pro)
  show "Payment_render s = Already_pro" by (rule r)
  show "Payment_run es' s = s" by (rule k)
  show "Payment_render (Payment_run es' s) \<notin> {Offer, Mock_payment, Success}"
    using r k by simp
next
  assume "\<forall>e \<in> set es''. answers_pro e"
  with Payment_init_only_pro have "only_pro (Payment_run es'' (Payment_init u al))"
    by (rule Payment_run_only_pro)
  from Payment_render_only_pro [OF this]
  show "Payment_render (Payment_run es'' (Payment_init u al)) \<notin> {Offer, Mock_payment, Success}"
    by auto
qed

theorem upgrade_flow_state_3_and_already_pro_witness:
  "paymentStep (Payment_run upgrade_events (Payment_init (Some user_u1) False)) = 3
   \<and> (\<exists>es1 e es2. upgrade_events = es1 @ e # es2
           \<and> paymentStep (Payment_run es1 (Payment_init (Some user_u1) False)) \<noteq> 3
           \<and> paymentStep (Payment_run (es1 @ [e]) (Payment_init (Some user_u1) False)) = 3
           \<and> (\<exists>p. profile_P (Payment_run (es1 @ [e]) (Payment_init (Some user_u1) False)) = Some p
                 \<and> is_pro p))
   \<and> Payment_render pay_already_pro = Already_pro
   \<and> Payment_run [Click_upgrade_now, Click_complete_payment, Click_back, Payment_answer None]
        pay_already_pro = pay_already_pro
   \<and> list_all answers_pro pro_entry_events
   \<and> Payment_render (Payment_run pro_entry_events (Payment_init (Some user_u1) False))
       \<noteq> Offer"
proof -
  have a: "paymentStep (Payment_run upgrade_events (Payment_init (Some user_u1) False)) = 3"
    by code_simp
  have b: "\<not> authLoading_P pay_already_pro \<and> \<not> loading_P pay_already_pro
      \<and> user_P pay_already_pro \<noteq> None
      \<and> profile_P pay_already_pro = Some (profile_u1\<lparr>is_pro := True\<rparr>)
      \<and> is_pro (profile_u1\<lparr>is_pro := True\<rparr>) \<and> \<not> processing pay_already_pro
      \<and> (\<forall>e \<in> set [Click_upgrade_now, Click_complete_payment, Click_back, Payment_answer None].
            \<not> is_profile_answer e)"
    by (simp add: pay_already_pro_def is_profile_answer_def)
  have c: "\<forall>e \<in> set pro_entry_events. answers_pro e"
    by (simp add: pro_entry_events_def answers_pro_def)
  show ?thesis
    using a b c
      upgrade_flow_state_3_and_already_pro
        [of upgrade_events "Some user_u1" False pay_already_pro "profile_u1\<lparr>is_pro := True\<rparr>"
           "[Click_upgrade_now, Click_complete_payment, Click_back, Payment_answer None]"
           pro_entry_events]
    by (simp add: list_all_iff)
qed

section \<open>Dashboard without a profile\<close>

text \<open>
  C6, as stated, fails: for a user without a profile row, once the case load has
  answered, the dashboard renders nothing, not the loading indicator.
\<close>

theorem dashboard_profile_not_found_counterexample:
  "code not_found = ''PGRST116''
   \<and> Dashboard_render dash_no_profile_loaded = Dashboard_null
   \<and> Dashboard_render dash_no_profile_loaded \<noteq> Dashboard_spinner"
  by (simp add: dash_no_profile_loaded_def not_found_def Dashboard_init_def
      Dashboard_fetchProfile_resume_def fetchCases_resume_def Dashboard_render_def)

text \<open>
  C6, amended. When the profile load of the signed-in user answers "not found", the
  dashboard renders without failing (the main view, the only one that reads the profile,
  is rendered only when user and profile are set); it shows the loading indicator while
  the case load is pending, and once the case load has answered, whatever the answer and
  in whichever order the two answers arrive, it renders nothing, as it does in every
  state that is not loading and holds no profile.
\<close>

theorem dashboard_profile_not_found:
  assumes "code e = ''PGRST116''" and "user_D s \<noteq> None" and "\<not> authLoading_D s"
    and "profile_D s = None"
  shows "(loading_D s \<longrightarrow>
            Dashboard_render (fst (Dashboard_fetchProfile_resume (Inl e) s)) = Dashboard_spinner)
       \<and> Dashboard_render (fst (fetchCases_resume r (fst (Dashboard_fetchProfile_resume (Inl e) s))))
           = Dashboard_null
       \<and> Dashboard_render (fst (Dashboard_fetchProfile_resume (Inl e) (fst (fetchCases_resume r s))))
           = Dashboard_null
       \<and> (\<forall>s'. Dashboard_render s' = Dashboard_main \<longrightarrow> user_D s' \<noteq> None \<and> profile_D s' \<noteq> None)
       \<and> (\<forall>s'. \<not> authLoading_D s' \<and> \<not> loading_D s' \<and> profile_D s' = None \<longrightarrow>
              Dashboard_render s' = Dashboard_null)"
  using assms
  by (auto simp: Dashboard_fetchProfile_resume_def fetchCases_resume_def Dashboard_render_def
      split: sum.splits if_splits)

theorem dashboard_profile_not_found_witness:
  "code not_found = ''PGRST116''
   \<and> user_D (Dashboard_init (Some user_u1) False) \<noteq> None
   \<and> \<not> authLoading_D (Dashboard_init (Some user_u1) False)
   \<and> profile_D (Dashboard_init (Some user_u1) False) = None
   \<and> loading_D (Dashboard_init (Some user_u1) False)
   \<and> Dashboard_render (fst (Dashboard_fetchProfile_resume (Inl not_found)
        (Dashboard_init (Some user_u1) False))) = Dashboard_spinner
   \<and> Dashboard_render (fst (fetchCases_resume (Inl server_down)
        (fst (Dashboard_fetchProfile_resume (Inl not_found) (Dashboard_init (Some user_u1) False)))))
       = Dashboard_null"
proof -
  have a: "code not_found = ''PGRST116''"
    by (simp add: not_found_def)
  have b: "user_D (Dashboard_init (Some user_u1) False) \<noteq> None"
    by (simp add: Dashboard_init_def)
  have c: "\<not> authLoading_D (Dashboard_init (Some user_u1) False)"
    by (simp add: Dashboard_init_def)
  have d: "profile_D (Dashboard_init (Some user_u1) False) = None"
    by (simp add: Dashboard_init_def)
  have l: "loading_D (Dashboard_init (Some user_u1) False)"
    by (simp add: Dashboard_init_def)
  show ?thesis
    using a b c d l dashboard_profile_not_found [OF a b c d, of "Inl server_down"]
    by blast
qed

section \<open>Operations in progress\<close>

text \<open>
  C9, as stated, fails: the loaders test no flag. With the loading flag set and a load
  already requested, invoking the case loader or either profile loader again issues the
  request again.
\<close>

theorem in_progress_flag_counterexample:
  "loading_D (Dashboard_init (Some user_u1) False)
   \<and> fetchCases_begin (Dashboard_init (Some user_u1) False) =
       (Dashboard_init (Some user_u1) False, [Select_cases ''u1''])
   \<and> fetchCases_begin (fst (fetchCases_begin (Dashboard_init (Some user_u1) False))) =
       (Dashboard_init (Some user_u1) False, [Select_cases ''u1''])
   \<and> Dashboard_fetchProfile_begin
        (fst (Dashboard_fetchProfile_begin (Dashboard_init (Some user_u1) False))) =
       (Dashboard_init (Some user_u1) False, [Select_profile ''u1''])
   \<and> loading_P (Payment_init (Some user_u1) False)
   \<and> Payment_fetchProfile_begin
        (fst (Payment_fetchProfile_begin (Payment_init (Some user_u1) False))) =
       (Payment_init (Some user_u1) False, [Select_profile ''u1''])"
  by (simp add: Dashboard_init_def Payment_init_def fetchCases_begin_def
      Dashboard_fetchProfile_begin_def Payment_fetchProfile_begin_def user_u1_def)

text \<open>
  C9, amended. The case creation flow and the payment step set their flag (creating,
  processing) when they issue a request and clear it when the answer arrives, and while
  the flag is set their submit control (and the Back control of the payment step) is
  disabled, so that activating it runs no handler and issues no second request. The
  profile loaders and the case loader issue their request whenever they are invoked
  with a signed-in user, whatever the flags.
\<close>

theorem in_progress_flag_disables_submit:
  "(creating s \<longrightarrow> click_create_case s = (s, []))
   \<and> (processing p \<longrightarrow>
        Payment_step Click_complete_payment p = (p, []) \<and> Payment_step Click_back p = (p, []))
   \<and> (snd (handleCreateCase_begin s) \<noteq> [] \<longrightarrow> creating (fst (handleCreateCase_begin s)))
   \<and> (snd (handlePayment_begin p) \<noteq> [] \<longrightarrow> processing (fst (handlePayment_begin p)))
   \<and> \<not> creating (fst (handleCreateCase_resume r s))
   \<and> \<not> processing (fst (handlePayment_resume r' p))
   \<and> (user_D s = Some u \<longrightarrow>
        snd (fetchCases_begin s) = [Select_cases (id_user u)]
        \<and> snd (Dashboard_fetchProfile_begin s) = [Select_profile (id_user u)])
   \<and> (user_P p = Some u \<longrightarrow> snd (Payment_fetchProfile_begin p) = [Select_profile (id_user u)])"
  by (auto simp: click_create_case_def create_button_disabled_def Payment_step_def
      handleCreateCase_begin_def handlePayment_begin_def handleCreateCase_resume_def
      handlePayment_resume_def fetchCases_begin_def Dashboard_fetchProfile_begin_def
      Payment_fetchProfile_begin_def split: option.splits sum.splits if_splits)

theorem in_progress_flag_disables_submit_witness:
  "creating dash_creating \<and> click_create_case dash_creating = (dash_creating, [])
   \<and> processing pay_processing
   \<and> Payment_step Click_complete_payment pay_processing = (pay_processing, [])
   \<and> snd (handlePayment_begin pay_step2) \<noteq> [] \<and> processing (fst (handlePayment_begin pay_step2))
   \<and> user_D dash_creating = Some user_u1
   \<and> snd (fetchCases_begin dash_creating) = [Select_cases ''u1'']"
proof -
  have a: "creating dash_creating"
    by (simp add: dash_creating_def)
  have b: "processing pay_processing"
    by (simp add: pay_processing_def)
  have c: "snd (handlePayment_begin pay_step2) \<noteq> []"
    by (simp add: handlePayment_begin_def pay_step2_def)
  have d: "user_D dash_creating = Some user_u1"
    by (simp add: dash_creating_def dash_typing_def)
  have e: "id_user user_u1 = ''u1''"
    by (simp add: user_u1_def)
  show ?thesis
    using a b c d e
      in_progress_flag_disables_submit [of dash_creating pay_processing _ _ user_u1]
      in_progress_flag_disables_submit [of dash_creating pay_step2 _ _ user_u1]
    by simp
qed

section \<open>Form validation\<close>

lemma nullable_lang: "nullable r \<longleftrightarrow> [] \<in> lang r"
  by (induction r) (auto intro: kleene_empty)

lemma kleene_Cons:
  "c # w \<in> kleene A \<longleftrightarrow> (\<exists>u v. w = u @ v \<and> c # u \<in> A \<and> v \<in> kleene A)"
proof
  assume "c # w \<in> kleene A"
  then show "\<exists>u v. w = u @ v \<and> c # u \<in> A \<and> v \<in> kleene A"
  proof (induction "c # w" rule: kleene.induct)
    case (kleene_more u v)
    show ?case
    proof (cases u)
      case Nil
      with kleene_more show ?thesis by simp
    next
      case (Cons a u')
      with kleene_more.hyps show ?thesis by auto
    qed
  qed
next
  assume "\<exists>u v. w = u @ v \<and> c # u \<in> A \<and> v \<in> kleene A"
  then obtain u v where "w = u @ v" "c # u \<in> A" "v \<in> kleene A" by blast
  then have "(c # u) @ v \<in> kleene A" by (intro kleene_more)
  with \<open>w = u @ v\<close> show "c # w \<in> kleene A" by simp
qed

lemma deriv_lang: "w \<in> lang (deriv c r) \<longleftrightarrow> c # w \<in> lang r"
proof (induction r arbitrary: w)
  case (Seq r s)
  then show ?case
    by (auto simp: nullable_lang Cons_eq_append_conv)
next
  case (Star r)
  then show ?case
    by (auto simp: kleene_Cons)
qed auto

lemma matches_lang: "matches r w \<longleftrightarrow> w \<in> lang r"
  by (induction w arbitrary: r) (simp_all add: nullable_lang deriv_lang)

lemma kleene_Atom: "w \<in> kleene {w. \<exists>c. w = [c] \<and> P c} \<longleftrightarrow> (\<forall>c \<in> set w. P c)"
  by (induction w) (auto simp: kleene_Cons intro: kleene_empty)

lemma lang_Plus_Atom: "w \<in> lang (Plus (Atom P)) \<longleftrightarrow> w \<noteq> [] \<and> (\<forall>c \<in> set w. P c)"
proof (cases w)
  case Nil
  then show ?thesis by (simp add: Plus_def)
next
  case (Cons a v)
  have "a # v \<in> lang (Plus (Atom P)) \<longleftrightarrow>
      (\<exists>c v'. a # v = [c] @ v' \<and> P c \<and> v' \<in> kleene {w. \<exists>c. w = [c] \<and> P c})"
    unfolding Plus_def lang.simps mem_Collect_eq by blast
  also have "\<dots> \<longleftrightarrow> P a \<and> v \<in> kleene {w. \<exists>c. w = [c] \<and> P c}"
    by auto
  finally have "a # v \<in> lang (Plus (Atom P)) \<longleftrightarrow>
      P a \<and> v \<in> kleene {w. \<exists>c. w = [c] \<and> P c}" .
  with Cons show ?thesis by (simp add: kleene_Atom)
qed

lemma lang_Seq_iff: "w \<in> lang (Seq r s) \<longleftrightarrow> (\<exists>u v. w = u @ v \<and> u \<in> lang r \<and> v \<in> lang s)"
  by simp

lemma lang_Atom_char: "w \<in> lang (Atom (\<lambda>c. c = a)) \<longleftrightarrow> w = [a]"
  by auto

lemma five_parts:
  "(\<exists>l r1. e = l @ r1 \<and> l \<in> A \<and>
      (\<exists>a r2. r1 = a @ r2 \<and> a = x \<and>
        (\<exists>d r3. r2 = d @ r3 \<and> d \<in> B \<and> (\<exists>b t. r3 = b @ t \<and> b = y \<and> t \<in> C))))
   \<longleftrightarrow> (\<exists>l d t. e = l @ x @ d @ y @ t \<and> l \<in> A \<and> d \<in> B \<and> t \<in> C)"
  by blast

lemma three_parts_ok:
  "l \<in> lang (Plus (Atom not_space_or_at)) \<and> d \<in> lang (Plus (Atom not_space_or_at))
     \<and> t \<in> lang (Plus (Atom not_space_or_at))
   \<longleftrightarrow> l \<noteq> [] \<and> d \<noteq> [] \<and> t \<noteq> []
     \<and> (\<forall>c \<in> set (l @ d @ t). c \<notin> set white_space_chars \<and> c \<noteq> CHR ''@'')"
  by (auto simp: lang_Plus_Atom not_space_or_at_def is_space_iff)

lemma emailRegex_test_iff: "emailRegex_test e \<longleftrightarrow> local_at_domain_tld e"
proof -
  let ?N = "lang (Plus (Atom not_space_or_at))"
  have "emailRegex_test e \<longleftrightarrow>
      (\<exists>l r1. e = l @ r1 \<and> l \<in> ?N \<and>
        (\<exists>a r2. r1 = a @ r2 \<and> a = ''@'' \<and>
          (\<exists>d r3. r2 = d @ r3 \<and> d \<in> ?N \<and> (\<exists>b t. r3 = b @ t \<and> b = ''.'' \<and> t \<in> ?N))))"
    by (simp only: emailRegex_test_def matches_lang emailRegex_def lang_Seq_iff lang_Atom_char)
  also have "\<dots> \<longleftrightarrow> (\<exists>l d t. e = l @ ''@'' @ d @ ''.'' @ t \<and> (l \<in> ?N \<and> d \<in> ?N \<and> t \<in> ?N))"
    by (simp only: five_parts)
  also have "\<dots> \<longleftrightarrow> local_at_domain_tld e"
    by (simp only: three_parts_ok local_at_domain_tld_def)
  finally show ?thesis .
qed

lemma validateForm_first_failing: "validateForm s = first_failing register_rules s"
  by (simp add: validateForm_def register_rules_def emailRegex_test_iff)

text \<open>
  C5, as stated, fails for the login form: a login with a password of five characters
  and an email without a dot after the at sign is handed to the session provider.
\<close>

theorem form_validation_counterexample:
  "length ''12345'' < 6 \<and> \<not> emailRegex_test ''a@b''
   \<and> snd (Login_handleSubmit_begin (login_form ''a@b'' ''12345'')) = [SignIn ''a@b'' ''12345'']"
proof -
  have "\<not> emailRegex_test ''a@b''"
    by code_simp
  then show ?thesis
    by (simp add: Login_handleSubmit_begin_def login_form_def)
qed

text \<open>
  C5, amended. The registration form is validated on submit by the first failing rule,
  in this order: all fields present, password of at least 6 characters, password equal
  to its confirmation, email of the shape local@domain.tld; it is handed to the session
  provider exactly when no rule fails, and otherwise the message of the first failing
  rule is shown and nothing is sent. The login form is handed to the session provider
  exactly when email and password are both non-empty. The pattern accepts a@b.co and
  rejects not-an-email.
\<close>

theorem form_validation:
  "validateForm s = first_failing register_rules s
   \<and> (validateForm s = None \<longleftrightarrow>
        firstName s \<noteq> [] \<and> lastName s \<noteq> [] \<and> email_R s \<noteq> [] \<and> password_R s \<noteq> []
        \<and> confirmPassword s \<noteq> [] \<and> 6 \<le> length (password_R s)
        \<and> password_R s = confirmPassword s \<and> local_at_domain_tld (email_R s))
   \<and> snd (Register_handleSubmit_begin s) =
        (if validateForm s = None
         then [SignUp (email_R s) (password_R s) (firstName s) (lastName s)] else [])
   \<and> (\<forall>m. validateForm s = Some m \<longrightarrow>
          error_R (fst (Register_handleSubmit_begin s)) = m
          \<and> \<not> loading_R (fst (Register_handleSubmit_begin s)))
   \<and> snd (Login_handleSubmit_begin l) =
        (if email_L l \<noteq> [] \<and> password_L l \<noteq> [] then [SignIn (email_L l) (password_L l)]
         else [])
   \<and> emailRegex_test ''a@b.co'' \<and> \<not> emailRegex_test ''not-an-email''"
proof (intro conjI)
  show "validateForm s = first_failing register_rules s"
    by (rule validateForm_first_failing)
  show "validateForm s = None \<longleftrightarrow>
        firstName s \<noteq> [] \<and> lastName s \<noteq> [] \<and> email_R s \<noteq> [] \<and> password_R s \<noteq> []
        \<and> confirmPassword s \<noteq> [] \<and> 6 \<le> length (password_R s)
        \<and> password_R s = confirmPassword s \<and> local_at_domain_tld (email_R s)"
    by (auto simp: validateForm_def emailRegex_test_iff)
  show "snd (Register_handleSubmit_begin s) =
        (if validateForm s = None
         then [SignUp (email_R s) (password_R s) (firstName s) (lastName s)] else [])"
    by (simp add: Register_handleSubmit_begin_def Let_def split: option.splits)
  show "\<forall>m. validateForm s = Some m \<longrightarrow>
          error_R (fst (Register_handleSubmit_begin s)) = m
          \<and> \<not> loading_R (fst (Register_handleSubmit_begin s))"
    by (simp add: Register_handleSubmit_begin_def Let_def)
  show "snd (Login_handleSubmit_begin l) =
        (if email_L l \<noteq> [] \<and> password_L l \<noteq> [] then [SignIn (email_L l) (password_L l)]
         else [])"
    by (simp add: Login_handleSubmit_begin_def Let_def)
  show "emailRegex_test ''a@b.co''"
    by code_simp
  show "\<not> emailRegex_test ''not-an-email''"
    by code_simp
qed

theorem form_validation_witness:
  "validateForm (reg_form ''a@b.co'' ''12345'' ''12345'') =
     Some ''Password must be at least 6 characters long''
   \<and> validateForm (reg_form ''a@b.co'' ''123456'' ''123456'') = None
   \<and> validateForm (reg_form ''a@b.co'' ''123456'' ''123457'') = Some ''Passwords do not match''
   \<and> validateForm (reg_form ''not-an-email'' ''12345'' ''123457'') =
     Some ''Password must be at least 6 characters long''
   \<and> validateForm (reg_form ''not-an-email'' ''123456'' ''123456'') =
     Some ''Please enter a valid email address''
   \<and> validateForm (reg_form nbsp_email ''123456'' ''123456'') =
     Some ''Please enter a valid email address''
   \<and> snd (Register_handleSubmit_begin (reg_form nbsp_email ''123456'' ''123456'')) = []
   \<and> local_at_domain_tld ''a@b.co'' \<and> \<not> local_at_domain_tld ''not-an-email''
   \<and> \<not> local_at_domain_tld nbsp_email
   \<and> snd (Register_handleSubmit_begin (reg_form ''a@b.co'' ''12345'' ''12345'')) = []
   \<and> error_R (fst (Register_handleSubmit_begin (reg_form ''a@b.co'' ''12345'' ''12345''))) =
       ''Password must be at least 6 characters long''
   \<and> snd (Register_handleSubmit_begin (reg_form ''a@b.co'' ''123456'' ''123456'')) =
       [SignUp ''a@b.co'' ''123456'' ''Ada'' ''Smith'']"
proof -
  have a: "validateForm (reg_form ''a@b.co'' ''12345'' ''12345'') =
     Some ''Password must be at least 6 characters long''"
    by code_simp
  have b: "validateForm (reg_form ''a@b.co'' ''123456'' ''123456'') = None"
    by code_simp
  have c: "validateForm (reg_form ''a@b.co'' ''123456'' ''123457'') = Some ''Passwords do not match''"
    by code_simp
  have d: "validateForm (reg_form ''not-an-email'' ''12345'' ''123457'') =
     Some ''Password must be at least 6 characters long''"
    by code_simp
  have e: "validateForm (reg_form ''not-an-email'' ''123456'' ''123456'') =
     Some ''Please enter a valid email address''"
    by code_simp
  have n: "validateForm (reg_form nbsp_email ''123456'' ''123456'') =
     Some ''Please enter a valid email address''"
    by code_simp
  have n1: "snd (Register_handleSubmit_begin (reg_form nbsp_email ''123456'' ''123456'')) = []"
    using n form_validation [of "reg_form nbsp_email ''123456'' ''123456''"]
    by simp
  have n2: "\<not> local_at_domain_tld nbsp_email"
    using n form_validation [of "reg_form nbsp_email ''123456'' ''123456''"]
    by (simp add: reg_form_def nbsp_email_def)
  have f: "local_at_domain_tld ''a@b.co''"
    using b form_validation [of "reg_form ''a@b.co'' ''123456'' ''123456''"]
    by (simp add: reg_form_def)
  have g: "\<not> local_at_domain_tld ''not-an-email''"
    using e form_validation [of "reg_form ''not-an-email'' ''123456'' ''123456''"]
    by (simp add: reg_form_def)
  have h: "snd (Register_handleSubmit_begin (reg_form ''a@b.co'' ''12345'' ''12345'')) = []
     \<and> error_R (fst (Register_handleSubmit_begin (reg_form ''a@b.co'' ''12345'' ''12345''))) =
       ''Password must be at least 6 characters long''"
    using a form_validation [of "reg_form ''a@b.co'' ''12345'' ''12345''"]
    by simp
  have i: "snd (Register_handleSubmit_begin (reg_form ''a@b.co'' ''123456'' ''123456'')) =
       [SignUp ''a@b.co'' ''123456'' ''Ada'' ''Smith'']"
    using b form_validation [of "reg_form ''a@b.co'' ''123456'' ''123456''"]
    by (simp add: reg_form_def)
  from a b c d e f g h i n n1 n2 show ?thesis
    by blast
qed

end
